theory Spec2Isabelle
  imports Main "HOL-Library.List_Lexorder" "HOL-Library.Char_ord"
begin

section \<open>Go values: nominal types, payloads and error values\<close>

text \<open>
  The payload parameter \<open>T\<close> of \<open>ExtendedError[T]\<close> is a Go type. Type identity in Go
  is nominal: a declared type is identified by its name, not by its underlying
  representation. A type is modelled by its name together with the kind of its
  underlying representation; \<open>type A int\<close> and \<open>type B int\<close> differ in the name only.
\<close>

datatype kind = KInt | KString | KMap

datatype gotype = GoType (tname: string) (underlying: kind)

text \<open>
  A payload value is stored by its representation: an integer, a string, or a map
  reference. A Go map value is a reference to a map object, or nil; the map objects
  themselves live in a store (see the section on errcontext).
\<close>

datatype val = VInt int | VString string | VMap "nat option"

text \<open>The zero value of a type, as produced by \<open>var zero T\<close>.\<close>

fun zero :: "gotype \<Rightarrow> val" where
  "zero (GoType n KInt) = VInt 0"
| "zero (GoType n KString) = VString []"
| "zero (GoType n KMap) = VMap None"

text \<open>
  Error values. \<open>ExtendedError T d c\<close> is the struct \<open>ExtendedError[T]{Data: d, err: c}\<close>
  of the package; its field \<open>err\<close> has the interface type \<open>error\<close> and may hold nil.
  The methods of \<open>ExtendedError[T]\<close> have value receivers, so they are in the method set
  of the pointer type \<open>*ExtendedError[T]\<close> as well, and a pointer is an error value too:
  \<^item> \<open>NilPtr T\<close> is the nil pointer \<open>(*ExtendedError[T])(nil)\<close>, a non-nil error value;
  \<^item> \<open>Ptr T a d c\<close> is the pointer at address \<open>a\<close> to a struct
    \<open>ExtendedError[T]{Data: d, err: c}\<close>.
  The other constructors stand for the error types of other packages, each a
  pointer-typed object with an address and the string its \<open>Error\<close> method returns:
  \<^item> \<open>Leaf\<close>: a type with no \<open>Unwrap\<close> method (\<open>errors.New\<close>);
  \<^item> \<open>Wrap\<close>: a type with \<open>Unwrap() error\<close> (\<open>fmt.Errorf\<close> with one \<open>%w\<close>);
  \<^item> \<open>Multi\<close>: a type with \<open>Unwrap() []error\<close> (\<open>errors.Join\<close>, which drops nil operands).
  The methods of the foreign types are taken to return; foreign error types that declare
  their own \<open>As\<close> or \<open>Is\<close> method are not modelled.
  A value of the interface type \<open>error\<close> is an \<open>err option\<close>, \<open>None\<close> being nil.
\<close>

datatype err =
    ExtendedError gotype (Data: val) "err option"
  | NilPtr gotype
  | Ptr gotype nat val "err option"
  | Leaf nat string
  | Wrap nat string "err option"
  | Multi nat string "err list"

type_synonym error = "err option"

datatype panic = NilDereference | UncomparableType

section \<open>Package xerrors\<close>

text \<open>
  \<^verbatim>\<open>func (e ExtendedError[T]) Error() string { return e.err.Error() }\<close>
  The call on a nil \<open>err\<close> field is a nil dereference. Through a pointer the receiver is
  the struct pointed to; through the nil pointer the call panics. The foreign types
  return their own message.
\<close>

fun Error :: "err \<Rightarrow> panic + string" where
  "Error (ExtendedError T d c) = (case c of None \<Rightarrow> Inl NilDereference | Some e \<Rightarrow> Error e)"
| "Error (NilPtr T) = Inl NilDereference"
| "Error (Ptr T a d c) = (case c of None \<Rightarrow> Inl NilDereference | Some e \<Rightarrow> Error e)"
| "Error (Leaf a m) = Inr m"
| "Error (Wrap a m c) = Inr m"
| "Error (Multi a m es) = Inr m"

text \<open>
  The types with the method \<open>Unwrap() error\<close> in their method set: the wrapper, its
  pointer type, and the foreign single-cause wrappers.
\<close>

fun hasUnwrap :: "err \<Rightarrow> bool" where
  "hasUnwrap (ExtendedError T d c) = True"
| "hasUnwrap (NilPtr T) = True"
| "hasUnwrap (Ptr T a d c) = True"
| "hasUnwrap (Wrap a m c) = True"
| "hasUnwrap (Leaf a m) = False"
| "hasUnwrap (Multi a m es) = False"

text \<open>
  \<^verbatim>\<open>func (e ExtendedError[T]) Unwrap() error { return e.err }\<close>
  Through a pointer the receiver is the struct pointed to; through the nil pointer the
  call panics. \<open>Wrap\<close> returns its cause. The last two equations are for types without
  the method, on which it is never called.
\<close>

fun Unwrap :: "err \<Rightarrow> panic + error" where
  "Unwrap (ExtendedError T d c) = Inr c"
| "Unwrap (NilPtr T) = Inl NilDereference"
| "Unwrap (Ptr T a d c) = Inr c"
| "Unwrap (Wrap a m c) = Inr c"
| "Unwrap (Leaf a m) = Inr None"
| "Unwrap (Multi a m es) = Inr None"

text \<open>
  \<^verbatim>\<open>
  func Extend[T any](data T, err error) error {
      if err == nil { return nil }
      return ExtendedError[T]{Data: data, err: err}
  }\<close>
\<close>

definition Extend :: "gotype \<Rightarrow> val \<Rightarrow> error \<Rightarrow> error" where
  "Extend T data err =
     (if err = None then None else Some (ExtendedError T data err))"

text \<open>
  The standard library's \<open>errors.AsType[E]\<close> at \<open>E = ExtendedError[T]\<close>. The loop
  \<open>asType\<close> tests the dynamic type of the current error, which only a struct of type
  \<open>ExtendedError[T]\<close> passes (a pointer to one does not). It then calls \<open>Unwrap() error\<close>
  where the type has it and goes on with the result, stopping at nil, or searches the
  results of \<open>Unwrap() []error\<close> in order; an error with neither method ends the walk.
  A panic of \<open>Unwrap\<close> is a panic of the walk. When nothing matches the result is the
  zero value of \<open>E\<close> and false.
\<close>

definition zeroE :: "gotype \<Rightarrow> err" where
  "zeroE T = ExtendedError T (zero T) None"

fun asType :: "gotype \<Rightarrow> err \<Rightarrow> panic + err \<times> bool"
  and asTypes :: "gotype \<Rightarrow> err list \<Rightarrow> panic + err \<times> bool" where
  "asType T (ExtendedError U d c) =
     (if U = T then Inr (ExtendedError U d c, True)
      else (case Unwrap (ExtendedError U d c) of
              Inl p \<Rightarrow> Inl p
            | Inr None \<Rightarrow> Inr (zeroE T, False)
            | Inr (Some e) \<Rightarrow> asType T e))"
| "asType T (NilPtr U) =
     (case Unwrap (NilPtr U) of
        Inl p \<Rightarrow> Inl p
      | Inr None \<Rightarrow> Inr (zeroE T, False)
      | Inr (Some e) \<Rightarrow> asType T e)"
| "asType T (Ptr U a d c) =
     (case Unwrap (Ptr U a d c) of
        Inl p \<Rightarrow> Inl p
      | Inr None \<Rightarrow> Inr (zeroE T, False)
      | Inr (Some e) \<Rightarrow> asType T e)"
| "asType T (Wrap a m c) =
     (case Unwrap (Wrap a m c) of
        Inl p \<Rightarrow> Inl p
      | Inr None \<Rightarrow> Inr (zeroE T, False)
      | Inr (Some e) \<Rightarrow> asType T e)"
| "asType T (Multi a m es) = asTypes T es"
| "asType T (Leaf a m) = Inr (zeroE T, False)"
| "asTypes T [] = Inr (zeroE T, False)"
| "asTypes T (e # es) =
     (case asType T e of
        Inl p \<Rightarrow> Inl p
      | Inr r \<Rightarrow> if snd r then Inr r else asTypes T es)"

definition AsType :: "gotype \<Rightarrow> error \<Rightarrow> panic + err \<times> bool" where
  "AsType T err = (case err of None \<Rightarrow> Inr (zeroE T, False) | Some e \<Rightarrow> asType T e)"

text \<open>
  \<^verbatim>\<open>
  func Extract[T any](err error) (T, bool) {
      e, ok := errors.AsType[ExtendedError[T]](err)
      return e.Data, ok
  }\<close>
\<close>

definition Extract :: "gotype \<Rightarrow> error \<Rightarrow> panic + val \<times> bool" where
  "Extract T err =
     (case AsType T err of Inl p \<Rightarrow> Inl p | Inr (e, ok) \<Rightarrow> Inr (Data e, ok))"

section \<open>The standard library's chain primitives\<close>

text \<open>
  \<open>errors.Unwrap(err)\<close>: the result of calling the \<open>Unwrap() error\<close> method where the
  type of \<open>err\<close> has it, nil otherwise.
\<close>

definition errors_Unwrap :: "error \<Rightarrow> panic + error" where
  "errors_Unwrap err =
     (case err of
        None \<Rightarrow> Inr None
      | Some e \<Rightarrow> if hasUnwrap e then Unwrap e else Inr None)"

text \<open>
  \<open>reflectlite.TypeOf(target).Comparable()\<close>: a pointer type is comparable; the struct
  type \<open>ExtendedError[T]\<close> is comparable when \<open>T\<close> is (its other field has an interface
  type). A map type is not comparable.
\<close>

fun comparableType :: "err \<Rightarrow> bool" where
  "comparableType (ExtendedError T d c) = (underlying T \<noteq> KMap)"
| "comparableType (NilPtr T) = True"
| "comparableType (Ptr T a d c) = True"
| "comparableType (Leaf a m) = True"
| "comparableType (Wrap a m c) = True"
| "comparableType (Multi a m es) = True"

text \<open>
  The comparison \<open>err == target\<close> of two non-nil interface values. Values of different
  dynamic types are unequal. Pointers of one type are equal when both are nil or both
  hold the same address. Two structs of the same type \<open>ExtendedError[T]\<close> are compared
  field by field in source order, \<open>err\<close> before \<open>Data\<close>, stopping at the first
  difference; comparing two values of one uncomparable dynamic type panics.
\<close>

fun go_eq :: "err \<Rightarrow> err \<Rightarrow> panic + bool" where
  "go_eq (ExtendedError T d c) (ExtendedError U d' c') =
     (if T \<noteq> U then Inr False
      else if underlying T = KMap then Inl UncomparableType
      else (case c of
              None \<Rightarrow> (case c' of None \<Rightarrow> Inr (d = d') | Some y \<Rightarrow> Inr False)
            | Some x \<Rightarrow>
               (case c' of
                  None \<Rightarrow> Inr False
                | Some y \<Rightarrow>
                   (case go_eq x y of
                      Inl p \<Rightarrow> Inl p
                    | Inr b \<Rightarrow> if b then Inr (d = d') else Inr False))))"
| "go_eq (NilPtr T) (NilPtr U) = Inr (T = U)"
| "go_eq (Ptr T a d c) (Ptr U b d' c') = Inr (T = U \<and> a = b)"
| "go_eq (Leaf a m) (Leaf b n) = Inr (a = b)"
| "go_eq (Wrap a m c) (Wrap b n c') = Inr (a = b)"
| "go_eq (Multi a m es) (Multi b n es') = Inr (a = b)"
| "go_eq e t = Inr False"

text \<open>
  \<open>errors.Is\<close>. The loop compares the current error with the target when the target's
  type is comparable, then calls \<open>Unwrap() error\<close> where the type has it and goes on
  with the result, stopping at nil, or tries the results of \<open>Unwrap() []error\<close> in order.
\<close>

fun is_loop :: "err \<Rightarrow> err \<Rightarrow> bool \<Rightarrow> panic + bool"
  and is_list :: "err list \<Rightarrow> err \<Rightarrow> bool \<Rightarrow> panic + bool" where
  "is_loop (ExtendedError T d c) target targetComparable =
     (case (if targetComparable then go_eq (ExtendedError T d c) target else Inr False) of
        Inl p \<Rightarrow> Inl p
      | Inr b \<Rightarrow>
         if b then Inr True
         else (case Unwrap (ExtendedError T d c) of
                 Inl p \<Rightarrow> Inl p
               | Inr None \<Rightarrow> Inr False
               | Inr (Some e) \<Rightarrow> is_loop e target targetComparable))"
| "is_loop (NilPtr T) target targetComparable =
     (case (if targetComparable then go_eq (NilPtr T) target else Inr False) of
        Inl p \<Rightarrow> Inl p
      | Inr b \<Rightarrow>
         if b then Inr True
         else (case Unwrap (NilPtr T) of
                 Inl p \<Rightarrow> Inl p
               | Inr None \<Rightarrow> Inr False
               | Inr (Some e) \<Rightarrow> is_loop e target targetComparable))"
| "is_loop (Ptr T a d c) target targetComparable =
     (case (if targetComparable then go_eq (Ptr T a d c) target else Inr False) of
        Inl p \<Rightarrow> Inl p
      | Inr b \<Rightarrow>
         if b then Inr True
         else (case Unwrap (Ptr T a d c) of
                 Inl p \<Rightarrow> Inl p
               | Inr None \<Rightarrow> Inr False
               | Inr (Some e) \<Rightarrow> is_loop e target targetComparable))"
| "is_loop (Wrap a m c) target targetComparable =
     (case (if targetComparable then go_eq (Wrap a m c) target else Inr False) of
        Inl p \<Rightarrow> Inl p
      | Inr b \<Rightarrow>
         if b then Inr True
         else (case Unwrap (Wrap a m c) of
                 Inl p \<Rightarrow> Inl p
               | Inr None \<Rightarrow> Inr False
               | Inr (Some e) \<Rightarrow> is_loop e target targetComparable))"
| "is_loop (Multi a m es) target targetComparable =
     (case (if targetComparable then go_eq (Multi a m es) target else Inr False) of
        Inl p \<Rightarrow> Inl p
      | Inr b \<Rightarrow> if b then Inr True else is_list es target targetComparable)"
| "is_loop (Leaf a m) target targetComparable =
     (if targetComparable then go_eq (Leaf a m) target else Inr False)"
| "is_list [] target targetComparable = Inr False"
| "is_list (e # es) target targetComparable =
     (case is_loop e target targetComparable of
        Inl p \<Rightarrow> Inl p
      | Inr b \<Rightarrow> if b then Inr True else is_list es target targetComparable)"

definition Is :: "error \<Rightarrow> error \<Rightarrow> panic + bool" where
  "Is err target =
     (case err of
        None \<Rightarrow> Inr (err = target)
      | Some e \<Rightarrow>
         (case target of
            None \<Rightarrow> Inr (err = target)
          | Some t \<Rightarrow> is_loop e t (comparableType t)))"

subsection \<open>The chain of an error\<close>

text \<open>
  The error values of a chain, in the order a chain walk visits them: the error
  itself, then the chain of its cause, or of each of its causes in turn. The nil pointer
  is a link with nothing below it.
\<close>

fun chain :: "err \<Rightarrow> err list"
  and chains :: "err list \<Rightarrow> err list" where
  "chain (ExtendedError T d c) =
     ExtendedError T d c # (case c of None \<Rightarrow> [] | Some e \<Rightarrow> chain e)"
| "chain (NilPtr T) = [NilPtr T]"
| "chain (Ptr T a d c) = Ptr T a d c # (case c of None \<Rightarrow> [] | Some e \<Rightarrow> chain e)"
| "chain (Wrap a m c) = Wrap a m c # (case c of None \<Rightarrow> [] | Some e \<Rightarrow> chain e)"
| "chain (Multi a m es) = Multi a m es # chains es"
| "chain (Leaf a m) = [Leaf a m]"
| "chains [] = []"
| "chains (e # es) = chain e @ chains es"

definition chainOf :: "error \<Rightarrow> err list" where
  "chainOf err = (case err of None \<Rightarrow> [] | Some e \<Rightarrow> chain e)"

text \<open>Whether an error value is a link of type \<open>ExtendedError[T]\<close>.\<close>

fun isExtended :: "gotype \<Rightarrow> err \<Rightarrow> bool" where
  "isExtended T (ExtendedError U d c) = (U = T)"
| "isExtended T e = False"

text \<open>Whether the chain of an error contains a link of type \<open>ExtendedError[T]\<close>.\<close>

definition hasExtension :: "gotype \<Rightarrow> error \<Rightarrow> bool" where
  "hasExtension T err = list_ex (isExtended T) (chainOf err)"

text \<open>Whether an error value is a nil pointer to a wrapper, and whether a chain has one.\<close>

fun isNilPtr :: "err \<Rightarrow> bool" where
  "isNilPtr (NilPtr T) = True"
| "isNilPtr e = False"

definition hasNilPtr :: "error \<Rightarrow> bool" where
  "hasNilPtr err = list_ex isNilPtr (chainOf err)"

text \<open>
  A wrapper of another kind around a cause: an error value whose type is not
  \<open>ExtendedError[T]\<close> and has the single-cause method \<open>Unwrap() error\<close>, which returns
  that cause.
\<close>

definition foreignWrap :: "gotype \<Rightarrow> err \<Rightarrow> error \<Rightarrow> bool" where
  "foreignWrap T w c = (\<not> isExtended T w \<and> hasUnwrap w \<and> Unwrap w = Inr c)"

text \<open>Several extension layers, the head of the list outermost.\<close>

fun extendAll :: "(gotype \<times> val) list \<Rightarrow> error \<Rightarrow> error" where
  "extendAll [] err = err"
| "extendAll ((T, d) # layers) err = Extend T d (extendAll layers err)"

text \<open>Calling \<open>Error()\<close> on a value of interface type: on nil it is a nil dereference.\<close>

definition errorString :: "error \<Rightarrow> panic + string" where
  "errorString err = (case err of None \<Rightarrow> Inl NilDereference | Some e \<Rightarrow> Error e)"

section \<open>Package errclass\<close>

text \<open>
  \<^verbatim>\<open>
  type Class int
  const ( Nil Class = iota - 1; Unknown; Transient; Persistent; Panic )\<close>
  Each constant is \<open>iota - 1\<close> for its position \<open>iota\<close> in the block, counted from 0.
  Only comparisons are made on a class, so the integer is not bounded here.
\<close>

type_synonym Class = int

definition Nil_Class :: Class where "Nil_Class = 0 - 1"
definition Unknown :: Class where "Unknown = 1 - 1"
definition Transient :: Class where "Transient = 2 - 1"
definition Persistent :: Class where "Persistent = 3 - 1"

text \<open>The payload type \<open>errclass.Class\<close>, and the class held by a payload of that type.\<close>

definition ClassT :: gotype where
  "ClassT = GoType ''errclass.Class'' KInt"

fun classOf :: "val \<Rightarrow> Class" where
  "classOf (VInt i) = i"
| "classOf v = 0"

datatype wrappingRestriction =
    wrappingRestrictionNone
  | wrappingRestrictionOnlyUnknown
  | wrappingRestrictionOnlyMoreSevere

record wrapOptions =
  restriction :: wrappingRestriction

text \<open>A \<open>WrapOption\<close> updates the options it is given a pointer to.\<close>

type_synonym WrapOption = "wrapOptions \<Rightarrow> wrapOptions"

definition WithUnrestricted :: WrapOption where
  "WithUnrestricted opt = opt\<lparr>restriction := wrappingRestrictionNone\<rparr>"

definition WithOnlyUnknown :: WrapOption where
  "WithOnlyUnknown opt = opt\<lparr>restriction := wrappingRestrictionOnlyUnknown\<rparr>"

definition WithOnlyMoreSevere :: WrapOption where
  "WithOnlyMoreSevere opt = opt\<lparr>restriction := wrappingRestrictionOnlyMoreSevere\<rparr>"

text \<open>
  \<^verbatim>\<open>
  func GetClass(err error) Class {
      if err == nil { return Nil }
      if class, ok := xerrors.Extract[Class](err); ok { return class }
      return Unknown
  }\<close>
  A panic of \<open>Extract\<close> is a panic of \<open>GetClass\<close>.
\<close>

definition GetClass :: "error \<Rightarrow> panic + Class" where
  "GetClass err =
     (if err = None then Inr Nil_Class
      else (case Extract ClassT err of
              Inl p \<Rightarrow> Inl p
            | Inr (class, ok) \<Rightarrow> if ok then Inr (classOf class) else Inr Unknown))"

text \<open>
  \<^verbatim>\<open>
  func WrapAs(err error, class Class, opts ...WrapOption) error {
      if err == nil { return nil }
      options := wrapOptions{}
      for _, opt := range opts { opt(&options) }
      currentClass := GetClass(err)
      switch options.restriction {
      case wrappingRestrictionOnlyUnknown:
          if currentClass == Unknown { return xerrors.Extend(class, err) }
          return err
      case wrappingRestrictionOnlyMoreSevere:
          if class > currentClass { return xerrors.Extend(class, err) }
          return err
      default:
          return xerrors.Extend(class, err)
      }
  }\<close>
  A panic of \<open>GetClass\<close> is a panic of \<open>WrapAs\<close>, under every option.
\<close>

definition WrapAs :: "error \<Rightarrow> Class \<Rightarrow> WrapOption list \<Rightarrow> panic + error" where
  "WrapAs err class opts =
     (if err = None then Inr None
      else let options = fold (\<lambda>opt options. opt options) opts
                           \<lparr>restriction = wrappingRestrictionNone\<rparr>
           in (case GetClass err of
                 Inl p \<Rightarrow> Inl p
               | Inr currentClass \<Rightarrow>
                  (case restriction options of
                     wrappingRestrictionOnlyUnknown \<Rightarrow>
                       if currentClass = Unknown then Inr (Extend ClassT (VInt class) err)
                       else Inr err
                   | wrappingRestrictionOnlyMoreSevere \<Rightarrow>
                       if class > currentClass then Inr (Extend ClassT (VInt class) err)
                       else Inr err
                   | wrappingRestrictionNone \<Rightarrow> Inr (Extend ClassT (VInt class) err))))"

section \<open>Package errcontext\<close>

text \<open>
  \<open>slog.Value\<close> and \<open>slog.Attr\<close> of the standard library: a value is a string, an
  integer, or the zero \<open>Value\<close>; an attribute is a key with a value.
\<close>

datatype slog_Value = StringValue string | IntValue int | NilValue

datatype Attr = Attr (Key: string) (Value: slog_Value)

text \<open>
  \<^verbatim>\<open>type Context map[string]slog.Value\<close>
  A \<open>Context\<close> is a reference to a map object, or nil. The store holds the contents of
  every map object by address, and the next address \<open>make\<close> hands out.
\<close>

type_synonym Context = "nat option"

record store =
  cells :: "nat \<Rightarrow> (string \<rightharpoonup> slog_Value)"
  nextAddr :: nat

definition ContextT :: gotype where
  "ContextT = GoType ''errcontext.Context'' KMap"

fun contextOf :: "val \<Rightarrow> Context" where
  "contextOf (VMap r) = r"
| "contextOf v = None"

text \<open>\<open>make(Context, n)\<close>: a new, empty map object at a fresh address.\<close>

definition make :: "store \<Rightarrow> nat \<times> store" where
  "make h = (nextAddr h,
             h\<lparr>cells := (cells h)(nextAddr h := Map.empty), nextAddr := Suc (nextAddr h)\<rparr>)"

text \<open>
  \<^verbatim>\<open>for _, attr := range context { m[attr.Key] = attr.Value }\<close>
  on the contents of the map object \<open>m\<close>.
\<close>

fun assign :: "Attr list \<Rightarrow> (string \<rightharpoonup> slog_Value) \<Rightarrow> (string \<rightharpoonup> slog_Value)" where
  "assign [] m = m"
| "assign (attr # context) m = assign context (m(Key attr \<mapsto> Value attr))"

text \<open>
  \<^verbatim>\<open>
  func (c Context) Flatten() []slog.Attr {
      keys := slices.Sorted(maps.Keys(c))
      attrs := make([]slog.Attr, 0, len(keys))
      for _, key := range keys {
          attrs = append(attrs, slog.Attr{Key: key, Value: c[key]})
      }
      return attrs
  }\<close>
  A nil map has no keys; reading a missing key yields the zero \<open>Value\<close>.
\<close>

definition index :: "(string \<rightharpoonup> slog_Value) \<Rightarrow> string \<Rightarrow> slog_Value" where
  "index m key = (case m key of None \<Rightarrow> NilValue | Some v \<Rightarrow> v)"

definition Flatten :: "store \<Rightarrow> Context \<Rightarrow> Attr list" where
  "Flatten h c =
     (case c of
        None \<Rightarrow> []
      | Some a \<Rightarrow>
         (let keys = sorted_list_of_set (dom (cells h a))
          in map (\<lambda>key. Attr key (index (cells h a) key)) keys))"

text \<open>
  \<^verbatim>\<open>
  func Get(err error) Context {
      if err == nil { return nil }
      if context, ok := xerrors.Extract[Context](err); ok { return context }
      return nil
  }\<close>
  A panic of \<open>Extract\<close> is a panic of \<open>Get\<close>.
\<close>

definition Get :: "error \<Rightarrow> panic + Context" where
  "Get err =
     (if err = None then Inr None
      else (case Extract ContextT err of
              Inl p \<Rightarrow> Inl p
            | Inr (context, ok) \<Rightarrow> if ok then Inr (contextOf context) else Inr None))"

text \<open>
  \<^verbatim>\<open>
  func Add(err error, context ...slog.Attr) error {
      if err == nil {
          return nil
      } else if len(context) == 0 {
          return err
      }
      if existing := Get(err); existing != nil {
          for _, attr := range context { existing[attr.Key] = attr.Value }
          return err
      }
      newContext := make(Context, len(context))
      for _, attr := range context { newContext[attr.Key] = attr.Value }
      return xerrors.Extend(newContext, err)
  }\<close>
  The store is passed in and returned, since \<open>Add\<close> writes to map objects. A panic of
  \<open>Get\<close> is a panic of \<open>Add\<close>, before any write.
\<close>

definition Add :: "store \<Rightarrow> error \<Rightarrow> Attr list \<Rightarrow> panic + store \<times> error" where
  "Add h err context =
     (if err = None then Inr (h, None)
      else if length context = 0 then Inr (h, err)
      else (case Get err of
              Inl p \<Rightarrow> Inl p
            | Inr (Some existing) \<Rightarrow>
                Inr (h\<lparr>cells := (cells h)(existing := assign context (cells h existing))\<rparr>, err)
            | Inr None \<Rightarrow>
                (let (newContext, h1) = make h;
                     h2 = h1\<lparr>cells := (cells h1)(newContext := assign context (cells h1 newContext))\<rparr>
                 in Inr (h2, Extend ContextT (VMap (Some newContext)) err))))"

section \<open>Values of the test suites\<close>

text \<open>\<^verbatim>\<open>var errTest = fmt.Errorf("this is a test error")\<close>, and a store with no map object.\<close>

definition errTest :: err where
  "errTest = Leaf 0 ''this is a test error''"

definition emptyStore :: store where
  "emptyStore = \<lparr>cells = (\<lambda>a. Map.empty), nextAddr = 0\<rparr>"

text \<open>Extension layers over a non-nil error, as a non-nil error.\<close>

fun layersOn :: "(gotype \<times> val) list \<Rightarrow> err \<Rightarrow> err" where
  "layersOn [] e = e"
| "layersOn ((T, d) # layers) e = ExtendedError T d (Some (layersOn layers e))"

section \<open>Facts about the chain walk\<close>

lemma Data_zeroE: "Data (zeroE T) = zero T"
  by (simp add: zeroE_def)

text \<open>A walk that reports a match has met a link of the type it looks for.\<close>

lemma asType_found:
  "asType T e = Inr r \<Longrightarrow> snd r \<Longrightarrow> list_ex (isExtended T) (chain e)"
  "asTypes T es = Inr r \<Longrightarrow> snd r \<Longrightarrow> list_ex (isExtended T) (chains es)"
  by (induct T e and T es arbitrary: r and r rule: asType_asTypes.induct)
     (auto split: option.splits if_splits sum.splits)

text \<open>
  Without such a link the walk visits the whole chain: it panics when the chain has a
  nil pointer, and reports the miss otherwise.
\<close>

lemma asType_miss:
  "\<not> list_ex (isExtended T) (chain e) \<Longrightarrow>
     asType T e = (if list_ex isNilPtr (chain e) then Inl NilDereference
                   else Inr (zeroE T, False))"
  "\<not> list_ex (isExtended T) (chains es) \<Longrightarrow>
     asTypes T es = (if list_ex isNilPtr (chains es) then Inl NilDereference
                     else Inr (zeroE T, False))"
  by (induct T e and T es rule: asType_asTypes.induct)
     (auto split: option.splits if_splits sum.splits)


lemma Extract_nil: "Extract T None = Inr (zero T, False)"
  by (simp add: Extract_def AsType_def Data_zeroE)

lemma Extract_miss:
  assumes "\<not> hasExtension T err"
  shows "Extract T err = (if hasNilPtr err then Inl NilDereference else Inr (zero T, False))"
proof (cases err)
  case None
  then show ?thesis by (simp add: Extract_nil hasNilPtr_def chainOf_def)
next
  case (Some e)
  with assms have "\<not> list_ex (isExtended T) (chain e)"
    by (simp add: hasExtension_def chainOf_def)
  from asType_miss(1)[OF this] Some show ?thesis
    by (simp add: Extract_def AsType_def Data_zeroE hasNilPtr_def chainOf_def)
qed


lemma Extract_head: "Extract T (Some (ExtendedError T d c)) = Inr (d, True)"
  by (simp add: Extract_def AsType_def)

lemma Extract_foreign:
  assumes "foreignWrap T w c"
  shows "Extract T (Some w) = Extract T c"
  using assms
  by (cases w; cases c) (auto simp: foreignWrap_def Extract_def AsType_def)

lemma Extract_skip:
  "U \<noteq> T \<Longrightarrow> Extract T (Some (ExtendedError U d c)) = Extract T c"
  by (rule Extract_foreign) (simp add: foreignWrap_def)

lemma Extend_Some: "Extend T d (Some e) = Some (ExtendedError T d (Some e))"
  by (simp add: Extend_def)

lemma Extend_nil: "Extend T d None = None"
  by (simp add: Extend_def)

lemma extendAll_layersOn: "extendAll layers (Some e) = Some (layersOn layers e)"
  by (induct layers e rule: layersOn.induct) (simp_all add: Extend_Some)

lemma extendAll_nil: "extendAll layers None = None"
  by (induct layers "None :: error" rule: extendAll.induct) (simp_all add: Extend_nil)

lemma Error_layersOn: "Error (layersOn layers e) = Error e"
  by (induct layers e rule: layersOn.induct) simp_all

section \<open>Extend and Extract\<close>

text \<open>
  Claim C1 (round trip), as amended. For every payload type \<open>T\<close>, every payload \<open>d\<close>
  and every non-nil error \<open>e\<close>, extracting at \<open>T\<close> right after extending with \<open>d\<close>
  returns \<open>d\<close> and true. Over the nil error \<open>Extend\<close> returns nil, and the extraction
  returns the zero value of \<open>T\<close> and false.
\<close>

theorem Extract_Extend_roundtrip:
  "Extract T (Extend T d (Some e)) = Inr (d, True)
   \<and> Extract T (Extend T d None) = Inr (zero T, False)"
  by (simp add: Extend_Some Extend_nil Extract_head Extract_nil)

text \<open>
  The round trip as the claim C1 states it, for all errors, fails at the nil error:
  for \<open>type A int\<close> and the payload \<open>A(7)\<close>, \<open>Extract[A](Extend(A(7), nil))\<close> is
  \<open>(A(0), false)\<close>.
\<close>

theorem Extract_Extend_nil_counterexample:
  "Extract (GoType ''A'' KInt) (Extend (GoType ''A'' KInt) (VInt 7) None) = Inr (VInt 0, False)
   \<and> Extract (GoType ''A'' KInt) (Extend (GoType ''A'' KInt) (VInt 7) None)
      \<noteq> Inr (VInt 7, True)"
  by (simp add: Extend_nil Extract_nil)

text \<open>
  Claim C2 (nearest wins on repeat), as amended. For every non-nil error \<open>e\<close> and
  payloads \<open>d1\<close>, \<open>d2\<close> of one type \<open>T\<close>, extracting from \<open>Extend(d2, Extend(d1, e))\<close>
  returns the outer payload \<open>d2\<close> and true. The inner link is still in the chain one
  step down: unwrapping once gives \<open>Extend(d1, e)\<close>, from which \<open>d1\<close> is extracted.
\<close>

theorem Extract_nearest_wins:
  "Extract T (Extend T d2 (Extend T d1 (Some e))) = Inr (d2, True)
   \<and> errors_Unwrap (Extend T d2 (Extend T d1 (Some e))) = Inr (Extend T d1 (Some e))
   \<and> Extract T (Extend T d1 (Some e)) = Inr (d1, True)"
  by (simp add: Extend_Some Extract_head errors_Unwrap_def)

text \<open>
  Nearest-wins as the claim C2 states it, for every error, fails at the nil error: both
  extensions return nil, and nothing is found.
\<close>

theorem Extract_nearest_nil_counterexample:
  "Extend (GoType ''A'' KInt) (VInt 2) (Extend (GoType ''A'' KInt) (VInt 1) None) = None
   \<and> Extract (GoType ''A'' KInt)
        (Extend (GoType ''A'' KInt) (VInt 2) (Extend (GoType ''A'' KInt) (VInt 1) None))
      \<noteq> Inr (VInt 2, True)"
  by (simp add: Extend_nil Extract_nil)




text \<open>
  Claim C4 (interleaving with foreign wrapper kinds), as amended. For every non-nil
  error \<open>e1\<close>, payload \<open>d\<close> of type \<open>T\<close> and single-cause wrapper \<open>w\<close> of another kind
  whose \<open>Unwrap\<close> returns \<open>Extend(d, e1)\<close>, \<open>Extract[T]\<close> of \<open>w\<close> returns \<open>d\<close> and true.
  The other kinds are the foreign types with \<open>Unwrap() error\<close>, \<open>ExtendedError[U]\<close> at
  any \<open>U\<close> other than \<open>T\<close>, and the pointers to a wrapper struct.
\<close>

theorem Extract_skips_foreign_wrap:
  assumes "foreignWrap T w (Extend T d (Some e1))"
  shows "Extract T (Some w) = Inr (d, True)"
  using Extract_foreign[OF assms] by (simp add: Extend_Some Extract_head)

theorem Extract_skips_foreign_wrap_witness:
  "foreignWrap ContextT
     (Wrap 1 ''handler error'' (Extend ContextT (VMap (Some 0)) (Some errTest)))
     (Extend ContextT (VMap (Some 0)) (Some errTest))
   \<and> Extract ContextT
        (Some (Wrap 1 ''handler error'' (Extend ContextT (VMap (Some 0)) (Some errTest))))
      = Inr (VMap (Some 0), True)
   \<and> foreignWrap ContextT
        (ExtendedError ClassT (VInt Transient) (Extend ContextT (VMap (Some 0)) (Some errTest)))
        (Extend ContextT (VMap (Some 0)) (Some errTest))
   \<and> Extract ContextT
        (Some (ExtendedError ClassT (VInt Transient)
                 (Extend ContextT (VMap (Some 0)) (Some errTest))))
      = Inr (VMap (Some 0), True)
   \<and> foreignWrap ContextT
        (Ptr ContextT 5 (VMap None) (Extend ContextT (VMap (Some 0)) (Some errTest)))
        (Extend ContextT (VMap (Some 0)) (Some errTest))
   \<and> Extract ContextT
        (Some (Ptr ContextT 5 (VMap None) (Extend ContextT (VMap (Some 0)) (Some errTest))))
      = Inr (VMap (Some 0), True)"
proof -
  have h1: "foreignWrap ContextT
     (Wrap 1 ''handler error'' (Extend ContextT (VMap (Some 0)) (Some errTest)))
     (Extend ContextT (VMap (Some 0)) (Some errTest))"
    by (simp add: foreignWrap_def)
  have h2: "foreignWrap ContextT
        (ExtendedError ClassT (VInt Transient) (Extend ContextT (VMap (Some 0)) (Some errTest)))
        (Extend ContextT (VMap (Some 0)) (Some errTest))"
    by (simp add: foreignWrap_def ClassT_def ContextT_def)
  have h3: "foreignWrap ContextT
        (Ptr ContextT 5 (VMap None) (Extend ContextT (VMap (Some 0)) (Some errTest)))
        (Extend ContextT (VMap (Some 0)) (Some errTest))"
    by (simp add: foreignWrap_def)
  from h1 h2 h3 Extract_skips_foreign_wrap[OF h1] Extract_skips_foreign_wrap[OF h2]
    Extract_skips_foreign_wrap[OF h3]
  show ?thesis by simp
qed

text \<open>
  Interleaving as the claim C4 states it, for every error \<open>e1\<close>, fails at the nil error:
  \<open>Extend(d, nil)\<close> is nil, so the wrapper has no extension below it. This holds for a
  foreign wrapper around the nil cause, and for the classification wrapper \<open>WrapAs\<close>,
  which returns nil itself.
\<close>

theorem Extract_foreign_wrap_nil_counterexample:
  "foreignWrap ContextT (Wrap 1 ''handler error'' None) (Extend ContextT (VMap (Some 0)) None)
   \<and> Extract ContextT (Some (Wrap 1 ''handler error'' (Extend ContextT (VMap (Some 0)) None)))
      \<noteq> Inr (VMap (Some 0), True)
   \<and> WrapAs (Extend ContextT (VMap (Some 0)) None) Transient [] = Inr None
   \<and> Extract ContextT None \<noteq> Inr (VMap (Some 0), True)"
  by (simp add: Extend_nil foreignWrap_def Extract_foreign Extract_nil WrapAs_def)

text \<open>
  Claim C6 (type distinctness). For every error \<open>e\<close> with no extension of type \<open>B\<close> in
  its chain, and every type \<open>A\<close> other than \<open>B\<close>, extending \<open>e\<close> with a payload of type
  \<open>A\<close> does not satisfy \<open>Extract[B]\<close>: the outcome is that of \<open>Extract[B]\<close> on \<open>e\<close>, it is
  never a payload with true, and it is the zero value of \<open>B\<close> with false when the chain
  of \<open>e\<close> has no nil pointer to a wrapper. Only the names of the types decide: the
  result is the same when \<open>A\<close> and \<open>B\<close> have one underlying representation.
\<close>

theorem Extract_type_distinct:
  assumes "A \<noteq> B" and "\<not> hasExtension B e"
  shows "Extract B (Extend A a e) = Extract B e
         \<and> Extract B (Extend A a e) \<noteq> Inr (v, True)
         \<and> (\<not> hasNilPtr e \<longrightarrow> Extract B (Extend A a e) = Inr (zero B, False))"
proof -
  have same: "Extract B (Extend A a e) = Extract B e"
    using assms(1) by (cases e) (simp_all add: Extend_Some Extend_nil Extract_skip)
  from Extract_miss[OF assms(2)] same show ?thesis by simp
qed

theorem Extract_type_distinct_witness:
  "GoType ''A'' KInt \<noteq> GoType ''B'' KInt
   \<and> underlying (GoType ''A'' KInt) = underlying (GoType ''B'' KInt)
   \<and> \<not> hasExtension (GoType ''B'' KInt) (Some errTest)
   \<and> \<not> hasNilPtr (Some errTest)
   \<and> Extract (GoType ''B'' KInt) (Extend (GoType ''A'' KInt) (VInt 7) (Some errTest))
      = Inr (VInt 0, False)
   \<and> Extract (GoType ''A'' KInt) (Extend (GoType ''A'' KInt) (VInt 7) (Some errTest))
      = Inr (VInt 7, True)"
proof -
  have h1: "GoType ''A'' KInt \<noteq> GoType ''B'' KInt" by simp
  have h2: "\<not> hasExtension (GoType ''B'' KInt) (Some errTest)"
    by (simp add: hasExtension_def chainOf_def errTest_def)
  have h3: "\<not> hasNilPtr (Some errTest)"
    by (simp add: hasNilPtr_def chainOf_def errTest_def)
  have "Extract (GoType ''B'' KInt) (Extend (GoType ''A'' KInt) (VInt 7) (Some errTest))
          = Inr (zero (GoType ''B'' KInt), False)"
    using Extract_type_distinct[OF h1 h2, of "VInt 7" "VInt 7"] h3 by blast
  with h1 h2 h3 show ?thesis by (simp add: Extend_Some Extract_head)
qed

text \<open>
  Claim C9 (message transparency). For every non-nil error \<open>e\<close>, payload type \<open>T\<close> and
  payload \<open>d\<close>, \<open>Extend(d, e)\<close> is a wrapper whose \<open>Error()\<close> is that of \<open>e\<close>, and so is
  the \<open>Error()\<close> of \<open>e\<close> under any number of extension layers. The two sides are
  equal as results, so a panic of \<open>e.Error()\<close> is the same panic of the wrapper.
\<close>

theorem Error_transparent:
  "Extend T d (Some e) = Some (ExtendedError T d (Some e))
   \<and> Error (ExtendedError T d (Some e)) = Error e
   \<and> errorString (Extend T d (Some e)) = errorString (Some e)
   \<and> errorString (extendAll layers (Some e)) = errorString (Some e)"
  by (simp add: Extend_Some errorString_def extendAll_layersOn Error_layersOn)

section \<open>Identity matching through extension layers\<close>

lemma layersOn_snoc:
  "layersOn (layers @ [(U, d')]) x = layersOn layers (ExtendedError U d' (Some x))"
  by (induct layers "ExtendedError U d' (Some x)" rule: layersOn.induct) simp_all

text \<open>
  Comparing a stack of one or more layers over an error with that error is never true:
  the comparison descends along the \<open>err\<close> fields, where it meets the same situation one
  link further down, and ends at two values of different types or at a nil field.
\<close>

lemma go_eq_layers_not_equal:
  "layers \<noteq> [] \<Longrightarrow> go_eq (layersOn layers e) e \<noteq> Inr True"
proof (induct e arbitrary: layers)
  case (ExtendedError U d' c')
  then obtain T d ls where layers: "layers = (T, d) # ls" by (cases layers) auto
  show ?case
  proof (cases c')
    case None
    with layers show ?thesis by simp
  next
    case (Some x)
    have "go_eq (layersOn (ls @ [(U, d')]) x) x \<noteq> Inr True"
      using ExtendedError.hyps[of x] Some by simp
    then have "go_eq (layersOn ls (ExtendedError U d' (Some x))) x \<noteq> Inr True"
      by (simp add: layersOn_snoc)
    with layers Some show ?thesis by (auto split: sum.splits)
  qed
next
  case (NilPtr T)
  then show ?case by (cases "(layers, NilPtr T)" rule: layersOn.cases) auto
next
  case (Ptr T a d c)
  then show ?case by (cases "(layers, Ptr T a d c)" rule: layersOn.cases) auto
next
  case (Leaf a m)
  then show ?case by (cases "(layers, Leaf a m)" rule: layersOn.cases) auto
next
  case (Wrap a m c)
  then show ?case by (cases "(layers, Wrap a m c)" rule: layersOn.cases) auto
next
  case (Multi a m es)
  then show ?case by (cases "(layers, Multi a m es)" rule: layersOn.cases) auto
qed

text \<open>When that comparison panics, so does the comparison of the error with itself.\<close>

lemma go_eq_layers_panic:
  "go_eq (layersOn layers e) e = Inl p \<Longrightarrow> go_eq e e = Inl p"
proof (induct e arbitrary: layers)
  case (ExtendedError U d' c')
  show ?case
  proof (cases layers)
    case Nil
    with ExtendedError.prems show ?thesis by (simp del: go_eq.simps)
  next
    case (Cons l ls)
    obtain T d where l: "l = (T, d)" by (cases l)
    show ?thesis
    proof (cases c')
      case None
      with Cons l ExtendedError.prems show ?thesis by (simp split: if_splits)
    next
      case (Some x)
      show ?thesis
      proof (cases "T = U \<and> underlying U \<noteq> KMap")
        case False
        with Cons l Some ExtendedError.prems show ?thesis by (auto split: if_splits)
      next
        case True
        with Cons l Some ExtendedError.prems
        have "go_eq (layersOn ls (ExtendedError U d' (Some x))) x = Inl p"
          by (auto split: sum.splits if_splits)
        then have "go_eq (layersOn (ls @ [(U, d')]) x) x = Inl p"
          by (simp add: layersOn_snoc)
        then have "go_eq x x = Inl p"
          using ExtendedError.hyps[of x] Some by simp
        with True Some show ?thesis by simp
      qed
    qed
  qed
next
  case (NilPtr T)
  then show ?case by (cases "(layers, NilPtr T)" rule: layersOn.cases) auto
next
  case (Ptr T a d c)
  then show ?case by (cases "(layers, Ptr T a d c)" rule: layersOn.cases) auto
next
  case (Leaf a m)
  then show ?case by (cases "(layers, Leaf a m)" rule: layersOn.cases) auto
next
  case (Wrap a m c)
  then show ?case by (cases "(layers, Wrap a m c)" rule: layersOn.cases) auto
next
  case (Multi a m es)
  then show ?case by (cases "(layers, Multi a m es)" rule: layersOn.cases) auto
qed

lemma is_loop_panic_head:
  "go_eq e t = Inl p \<Longrightarrow> is_loop e t True = Inl p"
  by (cases e) simp_all

text \<open>
  The walk from a stack of layers over an error, looking for that error, passes every
  layer through its \<open>Unwrap\<close> and ends as the walk from the error itself.
\<close>

lemma is_loop_layers:
  "is_loop (layersOn layers e) e cmp = is_loop e e cmp"
proof (induct layers)
  case Nil
  show ?case by simp
next
  case (Cons l layers)
  obtain T d where l: "l = (T, d)" by (cases l)
  show ?case
  proof (cases cmp)
    case False
    with Cons l show ?thesis by simp
  next
    case True
    show ?thesis
    proof (cases "go_eq (layersOn ((T, d) # layers) e) e")
      case (Inl p)
      then have "go_eq e e = Inl p" by (rule go_eq_layers_panic)
      then have "is_loop e e True = Inl p" by (rule is_loop_panic_head)
      with Inl True l show ?thesis by simp
    next
      case (Inr b)
      have "go_eq (layersOn ((T, d) # layers) e) e \<noteq> Inr True"
        by (rule go_eq_layers_not_equal) simp
      with Inr have "\<not> b" by auto
      with Inr True l Cons show ?thesis by simp
    qed
  qed
qed

lemma Is_layers: "Is (extendAll layers e) e = Is e e"
proof (cases e)
  case None
  then show ?thesis by (simp add: extendAll_nil)
next
  case (Some x)
  then show ?thesis
    by (simp add: extendAll_layersOn Is_def is_loop_layers)
qed

text \<open>
  Claim C5 (chain preservation), as amended. For every error \<open>e\<close>, nil included, every
  payload type \<open>T\<close> and payload \<open>d\<close>: \<open>errors.Is\<close> of \<open>Extend(d, e)\<close> against \<open>e\<close>, and of
  \<open>e\<close> under any number of extension layers against \<open>e\<close>, has the outcome of \<open>errors.Is\<close>
  of \<open>e\<close> against itself. So for every error that \<open>errors.Is\<close> matches against itself,
  the match still succeeds through the layers.
\<close>

theorem Is_unchanged_by_Extend:
  "Is (Extend T d e) e = Is e e
   \<and> Is (extendAll layers e) e = Is e e
   \<and> (Is e e = Inr True \<longrightarrow>
        Is (Extend T d e) e = Inr True \<and> Is (extendAll layers e) e = Inr True)"
proof -
  have one: "Is (Extend T d e) e = Is e e"
    using Is_layers[of "[(T, d)]" e] by simp
  with Is_layers[of layers e] show ?thesis by simp
qed

theorem Is_unchanged_by_Extend_witness:
  "Is (Some errTest) (Some errTest) = Inr True
   \<and> Is (Extend ContextT (VMap (Some 0)) (Some errTest)) (Some errTest) = Inr True
   \<and> Is (extendAll [(ClassT, VInt Transient), (ContextT, VMap (Some 0))] (Some errTest))
        (Some errTest) = Inr True"
proof -
  have h: "Is (Some errTest) (Some errTest) = Inr True"
    by (simp add: Is_def errTest_def)
  from h Is_unchanged_by_Extend[of ContextT "VMap (Some 0)" "Some errTest"
      "[(ClassT, VInt Transient), (ContextT, VMap (Some 0))]"]
  show ?thesis by blast
qed

text \<open>
  Chain preservation as the claim C5 states it, for every error, fails at an error whose
  type is not comparable. The error that \<open>errcontext.Add\<close> returns is a struct with a map
  field: \<open>errors.Is\<close> makes no comparison against such a target, so it matches neither
  the error itself nor a \<open>Class\<close> layer over it.
\<close>

theorem Is_uncomparable_counterexample:
  "(case Add emptyStore (Some errTest) [Attr ''one'' (StringValue ''one'')] of
      Inl p \<Rightarrow> None
    | Inr (h, e) \<Rightarrow> e)
     = Some (ExtendedError ContextT (VMap (Some 0)) (Some errTest))
   \<and> Is (Some (ExtendedError ContextT (VMap (Some 0)) (Some errTest)))
        (Some (ExtendedError ContextT (VMap (Some 0)) (Some errTest))) = Inr False
   \<and> Is (Extend ClassT (VInt Transient)
            (Some (ExtendedError ContextT (VMap (Some 0)) (Some errTest))))
        (Some (ExtendedError ContextT (VMap (Some 0)) (Some errTest))) = Inr False
   \<and> Is (Extend ClassT (VInt Transient)
            (Some (ExtendedError ContextT (VMap (Some 0)) (Some errTest))))
        (Some (ExtendedError ContextT (VMap (Some 0)) (Some errTest))) \<noteq> Inr True"
  by (simp add: Add_def Get_def Extract_def AsType_def make_def emptyStore_def errTest_def
        Extend_Some Is_def ContextT_def ClassT_def)

section \<open>Classification\<close>

lemma GetClass_head: "GetClass (Some (ExtendedError ClassT (VInt c) x)) = Inr c"
  by (simp add: GetClass_def Extract_head)

lemma GetClass_miss:
  assumes "err \<noteq> None" and "\<not> hasExtension ClassT err"
  shows "GetClass err = (if hasNilPtr err then Inl NilDereference else Inr Unknown)"
  using assms Extract_miss[of ClassT err] by (cases err) (simp_all add: GetClass_def)


lemma WrapAs_OnlyMoreSevere:
  "WrapAs err c [WithOnlyMoreSevere] =
     (case GetClass err of
        Inl p \<Rightarrow> Inl p
      | Inr currentClass \<Rightarrow>
          Inr (if c > currentClass then Extend ClassT (VInt c) err else err))"
  by (cases err)
     (auto simp: WrapAs_def WithOnlyMoreSevere_def Extend_nil GetClass_def split: sum.splits)

lemma WrapAs_unclassified:
  assumes "GetClass (Some e) = Inr Unknown"
  shows "WrapAs (Some e) Transient opts =
           Inr (Some (ExtendedError ClassT (VInt Transient) (Some e)))"
  using assms
  by (cases "restriction (fold (\<lambda>opt options. opt options) opts
                \<lparr>restriction = wrappingRestrictionNone\<rparr>)")
     (simp_all add: WrapAs_def Unknown_def Transient_def Extend_Some)

text \<open>
  Claim C8 (severity escalation without downgrade). Let \<open>e\<close> be a non-nil error whose
  class is \<open>Unknown\<close>. Classifying it as \<open>Transient\<close>, under any options, returns an
  error \<open>e1\<close> of class \<open>Transient\<close>. Reclassifying \<open>e1\<close> with \<open>Persistent\<close> under
  \<open>WithOnlyMoreSevere\<close> returns an error \<open>e2\<close> of class \<open>Persistent\<close>; reclassifying \<open>e2\<close>
  with \<open>Transient\<close> under the same option returns \<open>e2\<close> itself, so the class stays
  \<open>Persistent\<close>. In general, under \<open>WithOnlyMoreSevere\<close>, \<open>WrapAs\<close> extends the error
  when the given class is strictly greater than the current one, and otherwise returns
  the error as it is; a panic of \<open>GetClass\<close> is passed on.
\<close>

theorem WrapAs_severity_escalation:
  assumes "GetClass (Some e) = Inr Unknown"
  shows "(case WrapAs (Some e) Transient opts of
            Inl p \<Rightarrow> False
          | Inr e1 \<Rightarrow>
              GetClass e1 = Inr Transient
              \<and> (case WrapAs e1 Persistent [WithOnlyMoreSevere] of
                    Inl p \<Rightarrow> False
                  | Inr e2 \<Rightarrow>
                      GetClass e2 = Inr Persistent
                      \<and> WrapAs e2 Transient [WithOnlyMoreSevere] = Inr e2))
         \<and> WrapAs err c [WithOnlyMoreSevere] =
             (case GetClass err of
                Inl p \<Rightarrow> Inl p
              | Inr currentClass \<Rightarrow>
                  Inr (if c > currentClass then Extend ClassT (VInt c) err else err))"
proof -
  let ?w1 = "ExtendedError ClassT (VInt Transient) (Some e)"
  let ?w2 = "ExtendedError ClassT (VInt Persistent) (Some ?w1)"
  have e1: "WrapAs (Some e) Transient opts = Inr (Some ?w1)"
    using assms by (rule WrapAs_unclassified)
  have e2: "WrapAs (Some ?w1) Persistent [WithOnlyMoreSevere] = Inr (Some ?w2)"
    by (simp add: WrapAs_OnlyMoreSevere GetClass_head Transient_def Persistent_def Extend_Some)
  have e3: "WrapAs (Some ?w2) Transient [WithOnlyMoreSevere] = Inr (Some ?w2)"
    by (simp add: WrapAs_OnlyMoreSevere GetClass_head Transient_def Persistent_def)
  have scenario:
    "case WrapAs (Some e) Transient opts of
       Inl p \<Rightarrow> False
     | Inr e1 \<Rightarrow>
         GetClass e1 = Inr Transient
         \<and> (case WrapAs e1 Persistent [WithOnlyMoreSevere] of
               Inl p \<Rightarrow> False
             | Inr e2 \<Rightarrow>
                 GetClass e2 = Inr Persistent
                 \<and> WrapAs e2 Transient [WithOnlyMoreSevere] = Inr e2)"
    by (simp add: e1 e2 e3 GetClass_head)
  from scenario WrapAs_OnlyMoreSevere[of err c] show ?thesis by (rule conjI)
qed

theorem WrapAs_severity_escalation_witness:
  "GetClass (Some errTest) = Inr Unknown
   \<and> WrapAs (Some errTest) Transient []
      = Inr (Some (ExtendedError ClassT (VInt Transient) (Some errTest)))
   \<and> GetClass (Some (ExtendedError ClassT (VInt Transient) (Some errTest))) = Inr Transient
   \<and> WrapAs (Some (ExtendedError ClassT (VInt Transient) (Some errTest))) Persistent
        [WithOnlyMoreSevere]
      = Inr (Some (ExtendedError ClassT (VInt Persistent)
                    (Some (ExtendedError ClassT (VInt Transient) (Some errTest)))))
   \<and> GetClass (Some (ExtendedError ClassT (VInt Persistent)
                  (Some (ExtendedError ClassT (VInt Transient) (Some errTest)))))
      = Inr Persistent
   \<and> WrapAs (Some (ExtendedError ClassT (VInt Persistent)
                (Some (ExtendedError ClassT (VInt Transient) (Some errTest)))))
        Transient [WithOnlyMoreSevere]
      = Inr (Some (ExtendedError ClassT (VInt Persistent)
                    (Some (ExtendedError ClassT (VInt Transient) (Some errTest)))))"
proof -
  have h: "GetClass (Some errTest) = Inr Unknown"
    by (simp add: GetClass_miss hasExtension_def hasNilPtr_def chainOf_def errTest_def)
  have e1: "WrapAs (Some errTest) Transient []
      = Inr (Some (ExtendedError ClassT (VInt Transient) (Some errTest)))"
    by (simp add: WrapAs_def h Extend_Some)
  have e2: "WrapAs (Some (ExtendedError ClassT (VInt Transient) (Some errTest))) Persistent
        [WithOnlyMoreSevere]
      = Inr (Some (ExtendedError ClassT (VInt Persistent)
                    (Some (ExtendedError ClassT (VInt Transient) (Some errTest)))))"
    by (simp add: WrapAs_OnlyMoreSevere GetClass_head Transient_def Persistent_def Extend_Some)
  from WrapAs_severity_escalation[OF h, of "[]" None Transient]
  have "case WrapAs (Some errTest) Transient [] of
          Inl p \<Rightarrow> False
        | Inr e1 \<Rightarrow>
            GetClass e1 = Inr Transient
            \<and> (case WrapAs e1 Persistent [WithOnlyMoreSevere] of
                  Inl p \<Rightarrow> False
                | Inr e2 \<Rightarrow>
                    GetClass e2 = Inr Persistent
                    \<and> WrapAs e2 Transient [WithOnlyMoreSevere] = Inr e2)"
    by (rule conjunct1)
  with h e1 e2 show ?thesis by simp
qed




section \<open>Context attachment\<close>

text \<open>The assignment loop writes the attributes in order, so the last write of a key wins.\<close>

lemma assign_map_add:
  "assign attrs m = m ++ map_of (rev (map (\<lambda>x. (Key x, Value x)) attrs))"
  by (induct attrs arbitrary: m) simp_all

lemma Get_head: "Get (Some (ExtendedError ContextT (VMap r) c)) = Inr r"
  by (simp add: Get_def Extract_head)

lemma Get_plain:
  "\<not> hasExtension ContextT err \<Longrightarrow> \<not> hasNilPtr err \<Longrightarrow> Get err = Inr None"
  by (simp add: Get_def Extract_miss)

lemma Add_existing:
  assumes "Get (Some e) = Inr (Some a)"
  shows "Add h (Some e) attrs =
           Inr (h\<lparr>cells := (cells h)(a := cells h a ++
                     map_of (rev (map (\<lambda>x. (Key x, Value x)) attrs)))\<rparr>,
                Some e)"
  using assms by (cases attrs) (simp_all add: Add_def assign_map_add)

lemma Add_fresh:
  assumes "Get (Some e) = Inr None" and "attrs \<noteq> []"
  shows "Add h (Some e) attrs =
           Inr (h\<lparr>cells := (cells h)(nextAddr h := assign attrs Map.empty),
                   nextAddr := Suc (nextAddr h)\<rparr>,
                Some (ExtendedError ContextT (VMap (Some (nextAddr h))) (Some e)))"
  using assms by (simp add: Add_def make_def Extend_Some)

lemma Flatten_one_two:
  assumes "cells h a = [''one'' \<mapsto> v1, ''two'' \<mapsto> v2]"
  shows "Flatten h (Some a) = [Attr ''one'' v1, Attr ''two'' v2]"
  using assms by (simp add: Flatten_def index_def)

lemma Flatten_two:
  assumes "cells h a = [''two'' \<mapsto> v]"
  shows "Flatten h (Some a) = [Attr ''two'' v]"
  using assms by (simp add: Flatten_def index_def)

lemma Add_accumulates:
  assumes plain: "\<not> hasExtension ContextT (Some E)" and sound: "\<not> hasNilPtr (Some E)"
  shows "(case Add h0 (Some E) [Attr ''one'' (StringValue ''one'')] of
            Inl p \<Rightarrow> False
          | Inr (h1, E1) \<Rightarrow>
              (case Add h1 E1 [Attr ''two'' (StringValue ''two'')] of
                 Inl p \<Rightarrow> False
               | Inr (h2, E2) \<Rightarrow>
                   E2 = E1
                   \<and> (case Get E2 of
                         Inl p \<Rightarrow> False
                       | Inr c \<Rightarrow>
                           Flatten h2 c =
                             [Attr ''one'' (StringValue ''one''),
                              Attr ''two'' (StringValue ''two'')])
                   \<and> errors_Unwrap E2 = Inr (Some E)
                   \<and> Extract ContextT (Some E) = Inr (VMap None, False)
                   \<and> Get (Some E) = Inr None))"
proof -
  let ?a = "nextAddr h0"
  let ?E1 = "ExtendedError ContextT (VMap (Some ?a)) (Some E)"
  let ?h1 = "h0\<lparr>cells := (cells h0)(?a := assign [Attr ''one'' (StringValue ''one'')] Map.empty),
                nextAddr := Suc ?a\<rparr>"
  have none: "Get (Some E) = Inr None" using plain sound by (rule Get_plain)
  have miss: "Extract ContextT (Some E) = Inr (VMap None, False)"
    using Extract_miss[OF plain] sound by (simp add: ContextT_def)
  have s1: "Add h0 (Some E) [Attr ''one'' (StringValue ''one'')] = Inr (?h1, Some ?E1)"
    using none by (simp add: Add_fresh)
  have g1: "Get (Some ?E1) = Inr (Some ?a)" by (rule Get_head)
  let ?h2 = "?h1\<lparr>cells := (cells ?h1)(?a := cells ?h1 ?a ++
                map_of (rev (map (\<lambda>x. (Key x, Value x)) [Attr ''two'' (StringValue ''two'')])))\<rparr>"
  have s2: "Add ?h1 (Some ?E1) [Attr ''two'' (StringValue ''two'')] = Inr (?h2, Some ?E1)"
    using g1 by (rule Add_existing)
  have c2: "cells ?h2 ?a = [''one'' \<mapsto> StringValue ''one'', ''two'' \<mapsto> StringValue ''two'']"
    by simp
  have f2: "Flatten ?h2 (Some ?a) =
      [Attr ''one'' (StringValue ''one''), Attr ''two'' (StringValue ''two'')]"
    using c2 by (rule Flatten_one_two)
  have u: "errors_Unwrap (Some ?E1) = Inr (Some E)" by (simp add: errors_Unwrap_def)
  show ?thesis
    unfolding s1 s2 sum.case prod.case g1 u
    using f2 miss none by simp
qed

lemma Add_overwrites:
  assumes plain: "\<not> hasExtension ContextT (Some E)" and sound: "\<not> hasNilPtr (Some E)"
  shows "(case Add h0 (Some E) [Attr ''two'' (StringValue ''two'')] of
            Inl p \<Rightarrow> False
          | Inr (h1, E1) \<Rightarrow>
              (case Add h1 E1 [Attr ''two'' (StringValue ''three'')] of
                 Inl p \<Rightarrow> False
               | Inr (h2, E2) \<Rightarrow>
                   E2 = E1
                   \<and> (case Get E2 of
                         Inl p \<Rightarrow> False
                       | Inr c \<Rightarrow> Flatten h2 c = [Attr ''two'' (StringValue ''three'')])))"
proof -
  let ?a = "nextAddr h0"
  let ?E1 = "ExtendedError ContextT (VMap (Some ?a)) (Some E)"
  let ?h1 = "h0\<lparr>cells := (cells h0)(?a := assign [Attr ''two'' (StringValue ''two'')] Map.empty),
                nextAddr := Suc ?a\<rparr>"
  have none: "Get (Some E) = Inr None" using plain sound by (rule Get_plain)
  have s1: "Add h0 (Some E) [Attr ''two'' (StringValue ''two'')] = Inr (?h1, Some ?E1)"
    using none by (simp add: Add_fresh)
  have g1: "Get (Some ?E1) = Inr (Some ?a)" by (rule Get_head)
  let ?h2 = "?h1\<lparr>cells := (cells ?h1)(?a := cells ?h1 ?a ++
                map_of (rev (map (\<lambda>x. (Key x, Value x)) [Attr ''two'' (StringValue ''three'')])))\<rparr>"
  have s2: "Add ?h1 (Some ?E1) [Attr ''two'' (StringValue ''three'')] = Inr (?h2, Some ?E1)"
    using g1 by (rule Add_existing)
  have c2: "cells ?h2 ?a = [''two'' \<mapsto> StringValue ''three'']"
    by simp
  have f2: "Flatten ?h2 (Some ?a) = [Attr ''two'' (StringValue ''three'')]"
    using c2 by (rule Flatten_two)
  show ?thesis
    unfolding s1 s2 sum.case prod.case g1
    using f2 by simp
qed

text \<open>
  Claim C7 (repeated context attachment is single-layer), as amended. For every non-nil
  error \<open>e\<close> whose nearest \<open>Context\<close> payload is a non-nil map \<open>a\<close>, \<open>Add\<close> returns \<open>e\<close>
  itself and a store that differs only in the contents of \<open>a\<close>, where the attributes
  have been written over the old contents in order, the last write of a key winning.
  For every base error \<open>E\<close> with no \<open>Context\<close> and no nil pointer to a wrapper in its
  chain, and every store: adding \<open>one = "one"\<close> and then \<open>two = "two"\<close> returns both
  times, the second time the error \<open>E1\<close> of the first, whose flattened context is
  \<open>[one = "one", two = "two"]\<close> and whose immediate cause is \<open>E\<close>, with no context
  attached; adding \<open>two = "two"\<close> and then \<open>two = "three"\<close> gives the flattened context
  \<open>[two = "three"]\<close>.
\<close>

theorem Add_single_layer:
  "(Get (Some e) = Inr (Some a) \<longrightarrow>
      Add h (Some e) attrs =
        Inr (h\<lparr>cells := (cells h)(a := cells h a ++
                  map_of (rev (map (\<lambda>x. (Key x, Value x)) attrs)))\<rparr>,
             Some e))
   \<and> (\<not> hasExtension ContextT (Some E) \<and> \<not> hasNilPtr (Some E) \<longrightarrow>
        (case Add h0 (Some E) [Attr ''one'' (StringValue ''one'')] of
           Inl p \<Rightarrow> False
         | Inr (h1, E1) \<Rightarrow>
             (case Add h1 E1 [Attr ''two'' (StringValue ''two'')] of
                Inl p \<Rightarrow> False
              | Inr (h2, E2) \<Rightarrow>
                  E2 = E1
                  \<and> (case Get E2 of
                        Inl p \<Rightarrow> False
                      | Inr c \<Rightarrow>
                          Flatten h2 c =
                            [Attr ''one'' (StringValue ''one''),
                             Attr ''two'' (StringValue ''two'')])
                  \<and> errors_Unwrap E2 = Inr (Some E)
                  \<and> Extract ContextT (Some E) = Inr (VMap None, False)
                  \<and> Get (Some E) = Inr None))
        \<and> (case Add h0 (Some E) [Attr ''two'' (StringValue ''two'')] of
              Inl p \<Rightarrow> False
            | Inr (h1, E1) \<Rightarrow>
                (case Add h1 E1 [Attr ''two'' (StringValue ''three'')] of
                   Inl p \<Rightarrow> False
                 | Inr (h2, E2) \<Rightarrow>
                     E2 = E1
                     \<and> (case Get E2 of
                           Inl p \<Rightarrow> False
                         | Inr c \<Rightarrow> Flatten h2 c = [Attr ''two'' (StringValue ''three'')]))))"
  using Add_existing[of e a h attrs] Add_accumulates[of E h0] Add_overwrites[of E h0]
  by blast

theorem Add_single_layer_witness:
  "Get (Some (ExtendedError ContextT (VMap (Some 0)) (Some errTest))) = Inr (Some 0)
   \<and> Add (emptyStore\<lparr>cells := (cells emptyStore)(0 := [''two'' \<mapsto> StringValue ''two'']),
                       nextAddr := 1\<rparr>)
        (Some (ExtendedError ContextT (VMap (Some 0)) (Some errTest)))
        [Attr ''two'' (StringValue ''three'')]
      = Inr (emptyStore\<lparr>cells := (cells emptyStore)(0 := [''two'' \<mapsto> StringValue ''three'']),
                        nextAddr := 1\<rparr>,
             Some (ExtendedError ContextT (VMap (Some 0)) (Some errTest)))
   \<and> \<not> hasExtension ContextT (Some errTest)
   \<and> \<not> hasNilPtr (Some errTest)
   \<and> (case Add emptyStore (Some errTest) [Attr ''one'' (StringValue ''one'')] of
         Inl p \<Rightarrow> False
       | Inr (h1, E1) \<Rightarrow>
           (case Add h1 E1 [Attr ''two'' (StringValue ''two'')] of
              Inl p \<Rightarrow> False
            | Inr (h2, E2) \<Rightarrow>
                E2 = E1
                \<and> (case Get E2 of
                      Inl p \<Rightarrow> False
                    | Inr c \<Rightarrow>
                        Flatten h2 c =
                          [Attr ''one'' (StringValue ''one''),
                           Attr ''two'' (StringValue ''two'')])
                \<and> errors_Unwrap E2 = Inr (Some errTest)
                \<and> Extract ContextT (Some errTest) = Inr (VMap None, False)
                \<and> Get (Some errTest) = Inr None))"
proof -
  let ?X = "ExtendedError ContextT (VMap (Some 0)) (Some errTest)"
  let ?H = "emptyStore\<lparr>cells := (cells emptyStore)(0 := [''two'' \<mapsto> StringValue ''two'']),
                       nextAddr := 1\<rparr>"
  note inst = Add_single_layer[of ?X 0 ?H "[Attr ''two'' (StringValue ''three'')]"
      errTest emptyStore]
  have h1: "Get (Some ?X) = Inr (Some 0)"
    by (rule Get_head)
  have h2: "\<not> hasExtension ContextT (Some errTest)"
    by (simp add: hasExtension_def chainOf_def errTest_def)
  have h3: "\<not> hasNilPtr (Some errTest)"
    by (simp add: hasNilPtr_def chainOf_def errTest_def)
  from inst[THEN conjunct1] h1
  have "Add ?H (Some ?X) [Attr ''two'' (StringValue ''three'')]
          = Inr (?H\<lparr>cells := (cells ?H)(0 := cells ?H 0 ++
                      map_of (rev (map (\<lambda>x. (Key x, Value x))
                                    [Attr ''two'' (StringValue ''three'')])))\<rparr>,
                 Some ?X)"
    by (rule mp)
  then have first: "Add ?H (Some ?X) [Attr ''two'' (StringValue ''three'')]
          = Inr (emptyStore\<lparr>cells := (cells emptyStore)(0 := [''two'' \<mapsto> StringValue ''three'']),
                            nextAddr := 1\<rparr>,
                 Some ?X)"
    by (simp add: emptyStore_def)
  from h2 h3 have "\<not> hasExtension ContextT (Some errTest) \<and> \<not> hasNilPtr (Some errTest)"
    by (rule conjI)
  with inst[THEN conjunct2]
  have "(case Add emptyStore (Some errTest) [Attr ''one'' (StringValue ''one'')] of
         Inl p \<Rightarrow> False
       | Inr (h1, E1) \<Rightarrow>
           (case Add h1 E1 [Attr ''two'' (StringValue ''two'')] of
              Inl p \<Rightarrow> False
            | Inr (h2, E2) \<Rightarrow>
                E2 = E1
                \<and> (case Get E2 of
                      Inl p \<Rightarrow> False
                    | Inr c \<Rightarrow>
                        Flatten h2 c =
                          [Attr ''one'' (StringValue ''one''),
                           Attr ''two'' (StringValue ''two'')])
                \<and> errors_Unwrap E2 = Inr (Some errTest)
                \<and> Extract ContextT (Some errTest) = Inr (VMap None, False)
                \<and> Get (Some errTest) = Inr None))
        \<and> (case Add emptyStore (Some errTest) [Attr ''two'' (StringValue ''two'')] of
              Inl p \<Rightarrow> False
            | Inr (h1, E1) \<Rightarrow>
                (case Add h1 E1 [Attr ''two'' (StringValue ''three'')] of
                   Inl p \<Rightarrow> False
                 | Inr (h2, E2) \<Rightarrow>
                     E2 = E1
                     \<and> (case Get E2 of
                           Inl p \<Rightarrow> False
                         | Inr c \<Rightarrow> Flatten h2 c = [Attr ''two'' (StringValue ''three'')])))"
    by (rule mp)
  then have second: "(case Add emptyStore (Some errTest) [Attr ''one'' (StringValue ''one'')] of
         Inl p \<Rightarrow> False
       | Inr (h1, E1) \<Rightarrow>
           (case Add h1 E1 [Attr ''two'' (StringValue ''two'')] of
              Inl p \<Rightarrow> False
            | Inr (h2, E2) \<Rightarrow>
                E2 = E1
                \<and> (case Get E2 of
                      Inl p \<Rightarrow> False
                    | Inr c \<Rightarrow>
                        Flatten h2 c =
                          [Attr ''one'' (StringValue ''one''),
                           Attr ''two'' (StringValue ''two'')])
                \<and> errors_Unwrap E2 = Inr (Some errTest)
                \<and> Extract ContextT (Some errTest) = Inr (VMap None, False)
                \<and> Get (Some errTest) = Inr None))"
    by (rule conjunct1)
  from h1 first h2 h3 second show ?thesis by (intro conjI)
qed

text \<open>
  Single-layer attachment as the claim C7 states it, for every non-nil error that carries
  a \<open>Context\<close> payload, fails when that payload is the nil map: \<open>Extract[Context]\<close> finds
  it, \<open>Get\<close> returns nil, and \<open>Add\<close> allocates a new map and adds a second wrapper layer.
\<close>

theorem Add_nil_context_counterexample:
  "Extract ContextT (Some (ExtendedError ContextT (VMap None) (Some errTest)))
     = Inr (VMap None, True)
   \<and> hasExtension ContextT (Some (ExtendedError ContextT (VMap None) (Some errTest)))
   \<and> (case Add emptyStore (Some (ExtendedError ContextT (VMap None) (Some errTest)))
              [Attr ''two'' (StringValue ''two'')] of
         Inl p \<Rightarrow> None
       | Inr (h, e) \<Rightarrow> e)
       = Some (ExtendedError ContextT (VMap (Some 0))
                (Some (ExtendedError ContextT (VMap None) (Some errTest))))
   \<and> (case Add emptyStore (Some (ExtendedError ContextT (VMap None) (Some errTest)))
              [Attr ''two'' (StringValue ''two'')] of
         Inl p \<Rightarrow> None
       | Inr (h, e) \<Rightarrow> e)
       \<noteq> Some (ExtendedError ContextT (VMap None) (Some errTest))"
  by (simp add: Extract_head hasExtension_def chainOf_def Add_def Get_head
        make_def emptyStore_def Extend_Some)

end
